theory Spec2Isabelle
  imports Complex_Main "HOL-Library.Log_Nat"
begin

section \<open>JavaScript values\<close>

text \<open>
  The detection batch is the result of \<^verbatim>\<open>JSON.parse\<close> cast to \<^verbatim>\<open>Detection[]\<close> without any check
  (\<^verbatim>\<open>App.tsx\<close>, \<^verbatim>\<open>setParsedDetections(json as Detection[])\<close>), so a field may hold a value of
  another type than \<^verbatim>\<open>types.ts\<close> declares.

  A JavaScript number is \<open>NaN\<close>, an infinity or a finite binary64 value. A finite value
  is kept as the rational it denotes, and every result of an arithmetic operation or of a
  conversion from a string is rounded to binary64 by \<open>fl64\<close> below. The two zeros are one
  value \<open>Fin 0\<close>: the template string \<^verbatim>\<open>`${x}%`\<close> prints both as \<^verbatim>\<open>0%\<close>, comparisons do not
  tell them apart, and the code divides by the constant 10 only.
\<close>

datatype jsnum = Fin rat | NaN | PosInf | NegInf

text \<open>
  The values a field of a parsed record can hold, as far as they are modelled: the JSON
  scalars, and \<^verbatim>\<open>undefined\<close> for a property or an array element that is absent. Strings are
  lists of code units below 256. Nested arrays and objects as field values are left out.
\<close>

datatype jsval = VUndef | VNull | VBool bool | VNum jsnum | VStr string

datatype js_error = TypeError | SyntaxError | SecurityError

subsection \<open>Rounding to binary64\<close>

text \<open>Powers of two with an integer exponent.\<close>

definition pow2 :: "int \<Rightarrow> rat" where
  "pow2 e = 2 powi e"

text \<open>
  The exponent \<open>e\<close> of a positive rational: \<open>2\<^sup>e \<le> a < 2\<^sup>e\<^sup>+\<^sup>1\<close>, found from the bit lengths of
  the numerator and the denominator.
\<close>

definition floor_log2 :: "rat \<Rightarrow> int" where
  "floor_log2 a =
     (let (p, q) = quotient_of a;
          d = bitlen p - bitlen q
      in if pow2 d \<le> a then d else d - 1)"

text \<open>The nearest integer, the even one of the two when they are equally near.\<close>

definition round_half_even :: "rat \<Rightarrow> int" where
  "round_half_even x =
     (let f = \<lfloor>x\<rfloor>; r = x - of_int f
      in if r < 1 / 2 then f
         else if 1 / 2 < r then f + 1
         else if even f then f else f + 1)"

text \<open>
  The binary64 value nearest to a positive rational (IEEE 754, round to nearest, ties to
  even): a significand of 53 bits at the exponent of the argument, at the fixed exponent
  \<open>-1022\<close> below the normal range (gradual underflow, down to zero), and \<open>Infinity\<close> from
  \<open>2\<^sup>1\<^sup>0\<^sup>2\<^sup>4\<close> minus half a unit in the last place on.
\<close>

definition fl64_pos :: "rat \<Rightarrow> jsnum" where
  "fl64_pos a =
     (let e = max (floor_log2 a) (- 1022);
          m = round_half_even (a / pow2 (e - 52))
      in if 1023 < e \<or> (e = 1023 \<and> m = 2 ^ 53) then PosInf
         else Fin (of_int m * pow2 (e - 52)))"

fun js_neg :: "jsnum \<Rightarrow> jsnum" where
  "js_neg (Fin a) = Fin (- a)"
| "js_neg NaN = NaN"
| "js_neg PosInf = NegInf"
| "js_neg NegInf = PosInf"

definition fl64 :: "rat \<Rightarrow> jsnum" where
  "fl64 q = (if q = 0 then Fin 0 else if 0 < q then fl64_pos q else js_neg (fl64_pos (- q)))"

subsection \<open>Relational operators and arithmetic on numbers\<close>

text \<open>\<^verbatim>\<open>a <= b\<close>, \<^verbatim>\<open>a < b\<close> and \<^verbatim>\<open>a >= b\<close> on numbers: false as soon as one side is \<open>NaN\<close>.\<close>

fun js_le :: "jsnum \<Rightarrow> jsnum \<Rightarrow> bool" where
  "js_le NaN _ = False"
| "js_le _ NaN = False"
| "js_le NegInf _ = True"
| "js_le _ PosInf = True"
| "js_le PosInf _ = False"
| "js_le _ NegInf = False"
| "js_le (Fin a) (Fin b) = (a \<le> b)"

fun js_lt :: "jsnum \<Rightarrow> jsnum \<Rightarrow> bool" where
  "js_lt NaN _ = False"
| "js_lt _ NaN = False"
| "js_lt PosInf _ = False"
| "js_lt _ NegInf = False"
| "js_lt NegInf _ = True"
| "js_lt _ PosInf = True"
| "js_lt (Fin a) (Fin b) = (a < b)"

definition js_ge :: "jsnum \<Rightarrow> jsnum \<Rightarrow> bool" where
  "js_ge a b = js_le b a"

text \<open>Sums, products and quotients of finite numbers are rounded.\<close>

fun js_add :: "jsnum \<Rightarrow> jsnum \<Rightarrow> jsnum" where
  "js_add NaN _ = NaN"
| "js_add _ NaN = NaN"
| "js_add PosInf NegInf = NaN"
| "js_add NegInf PosInf = NaN"
| "js_add PosInf _ = PosInf"
| "js_add _ PosInf = PosInf"
| "js_add NegInf _ = NegInf"
| "js_add _ NegInf = NegInf"
| "js_add (Fin a) (Fin b) = fl64 (a + b)"

definition js_sub :: "jsnum \<Rightarrow> jsnum \<Rightarrow> jsnum" where
  "js_sub a b = js_add a (js_neg b)"

text \<open>
  The sign of a number, for the products and quotients with an infinity; \<open>None\<close> for
  \<open>NaN\<close>.
\<close>

fun js_sign :: "jsnum \<Rightarrow> int option" where
  "js_sign NaN = None"
| "js_sign PosInf = Some 1"
| "js_sign NegInf = Some (- 1)"
| "js_sign (Fin a) = Some (if a < 0 then - 1 else if a = 0 then 0 else 1)"

definition signed_inf :: "int \<Rightarrow> jsnum" where
  "signed_inf s = (if s < 0 then NegInf else PosInf)"

fun js_mul :: "jsnum \<Rightarrow> jsnum \<Rightarrow> jsnum" where
  "js_mul (Fin a) (Fin b) = fl64 (a * b)"
| "js_mul a b =
     (case (js_sign a, js_sign b) of
        (Some s, Some t) \<Rightarrow> if s * t = 0 then NaN else signed_inf (s * t)
      | _ \<Rightarrow> NaN)"

fun js_div :: "jsnum \<Rightarrow> jsnum \<Rightarrow> jsnum" where
  "js_div NaN _ = NaN"
| "js_div _ NaN = NaN"
| "js_div (Fin a) (Fin b) =
     (if b = 0 then (if a = 0 then NaN else signed_inf (if a < 0 then - 1 else 1))
      else fl64 (a / b))"
| "js_div (Fin a) _ = Fin 0"
| "js_div a (Fin b) =
     (case js_sign a of
        Some s \<Rightarrow> signed_inf (if b < 0 then - s else s)
      | None \<Rightarrow> NaN)"
| "js_div _ _ = NaN"

subsection \<open>Parsing numbers out of strings\<close>

text \<open>The white space and line terminators of ECMAScript among the code units below 256.\<close>

definition is_ws :: "char \<Rightarrow> bool" where
  "is_ws c = (c \<in> set [CHR 0x09, CHR 0x0A, CHR 0x0B, CHR 0x0C, CHR 0x0D, CHR 0x20, CHR 0xA0])"

text \<open>\<^verbatim>\<open>String.prototype.trim\<close>.\<close>

definition js_trim :: "string \<Rightarrow> string" where
  "js_trim s = rev (dropWhile is_ws (rev (dropWhile is_ws s)))"

text \<open>The value of a character as a digit (letters count from ten), if it is one.\<close>

definition digit_val :: "char \<Rightarrow> nat option" where
  "digit_val c =
     (let k = (of_char c :: nat) in
      if 48 \<le> k \<and> k \<le> 57 then Some (k - 48)
      else if 97 \<le> k \<and> k \<le> 122 then Some (k - 87)
      else if 65 \<le> k \<and> k \<le> 90 then Some (k - 55)
      else None)"

definition is_digit :: "nat \<Rightarrow> char \<Rightarrow> bool" where
  "is_digit r c = (case digit_val c of Some d \<Rightarrow> d < r | None \<Rightarrow> False)"

definition digits_val :: "nat \<Rightarrow> string \<Rightarrow> nat" where
  "digits_val r z = foldl (\<lambda>a c. a * r + (case digit_val c of Some d \<Rightarrow> d | None \<Rightarrow> 0)) 0 z"

text \<open>
  \<^verbatim>\<open>parseInt(s)\<close> with no radix: leading white space is skipped, then an optional sign, an
  optional \<^verbatim>\<open>0x\<close> or \<^verbatim>\<open>0X\<close> that selects radix 16, and the longest run of digits; whatever
  follows is ignored. No digit at all gives \<open>NaN\<close>. The integer read is rounded to
  binary64.
\<close>

definition parseInt :: "string \<Rightarrow> jsnum" where
  "parseInt s =
     (let s0 = dropWhile is_ws s;
          sgn = (case s0 of c # _ \<Rightarrow> if c = CHR ''-'' then (- 1 :: int) else 1 | [] \<Rightarrow> 1);
          s1 = (case s0 of c # t \<Rightarrow> if c = CHR ''-'' \<or> c = CHR ''+'' then t else s0 | [] \<Rightarrow> s0);
          hex = (case s1 of a # b # _ \<Rightarrow> a = CHR ''0'' \<and> (b = CHR ''x'' \<or> b = CHR ''X'') | _ \<Rightarrow> False);
          r = (if hex then 16 else 10);
          s2 = (if hex then drop 2 s1 else s1);
          z = takeWhile (is_digit r) s2
      in if z = [] then NaN else fl64 (of_int (sgn * int (digits_val r z))))"

text \<open>
  The unsigned decimal literal of \<^verbatim>\<open>StringToNumber\<close>: digits, an optional fraction and an
  optional exponent, with at least one digit before or after the point and nothing left
  over.
\<close>

definition str_exponent :: "string \<Rightarrow> int option" where
  "str_exponent s =
     (case s of
        [] \<Rightarrow> Some 0
      | c # t \<Rightarrow>
          if c = CHR ''e'' \<or> c = CHR ''E'' then
            (let neg = (case t of d # _ \<Rightarrow> d = CHR ''-'' | [] \<Rightarrow> False);
                 t1 = (case t of d # u \<Rightarrow> if d = CHR ''-'' \<or> d = CHR ''+'' then u else t | [] \<Rightarrow> t)
             in if t1 \<noteq> [] \<and> list_all (is_digit 10) t1
                then Some ((if neg then - 1 else 1) * int (digits_val 10 t1))
                else None)
          else None)"

definition str_unsigned_decimal :: "string \<Rightarrow> rat option" where
  "str_unsigned_decimal s =
     (let ip = takeWhile (is_digit 10) s;
          r1 = dropWhile (is_digit 10) s;
          dot = (case r1 of c # _ \<Rightarrow> c = CHR ''.'' | [] \<Rightarrow> False);
          r2 = (if dot then tl r1 else r1);
          fp = (if dot then takeWhile (is_digit 10) r2 else []);
          r3 = (if dot then dropWhile (is_digit 10) r2 else r2)
      in if ip = [] \<and> fp = [] then None
         else (case str_exponent r3 of
                 None \<Rightarrow> None
               | Some e \<Rightarrow>
                   (let m = of_nat (digits_val 10 (ip @ fp)) / 10 ^ length fp
                    in Some (if e < 0 then m / 10 ^ nat (- e) else m * 10 ^ nat e))))"

text \<open>
  \<^verbatim>\<open>StringToNumber\<close>, the conversion \<^verbatim>\<open>Number(s)\<close> applies to a string: surrounding white
  space is dropped; the empty string is 0; a prefix \<^verbatim>\<open>0x\<close>, \<^verbatim>\<open>0o\<close> or \<^verbatim>\<open>0b\<close> (either case)
  selects an unsigned integer in that radix; otherwise an optional sign and either
  \<^verbatim>\<open>Infinity\<close> or a decimal literal. Anything else is \<open>NaN\<close>. The mathematical value
  of the literal is rounded to binary64.
\<close>

definition radix_prefix :: "string \<Rightarrow> nat option" where
  "radix_prefix s =
     (case s of
        a # b # _ \<Rightarrow>
          if a \<noteq> CHR ''0'' then None
          else if b = CHR ''x'' \<or> b = CHR ''X'' then Some 16
          else if b = CHR ''o'' \<or> b = CHR ''O'' then Some 8
          else if b = CHR ''b'' \<or> b = CHR ''B'' then Some 2
          else None
      | _ \<Rightarrow> None)"

definition StringToNumber :: "string \<Rightarrow> jsnum" where
  "StringToNumber s =
     (let t = js_trim s in
      if t = [] then Fin 0
      else (case radix_prefix t of
              Some r \<Rightarrow>
                (let z = drop 2 t in
                 if z \<noteq> [] \<and> list_all (is_digit r) z then fl64 (of_nat (digits_val r z)) else NaN)
            | None \<Rightarrow>
                (let neg = (hd t = CHR ''-'');
                     u = (if hd t = CHR ''-'' \<or> hd t = CHR ''+'' then tl t else t)
                 in if u = ''Infinity'' then (if neg then NegInf else PosInf)
                    else (case str_unsigned_decimal u of
                            None \<Rightarrow> NaN
                          | Some q \<Rightarrow> fl64 (if neg then - q else q)))))"

text \<open>\<^verbatim>\<open>Number(v)\<close>, and the coercion the relational operators apply to an operand.\<close>

fun ToNumber :: "jsval \<Rightarrow> jsnum" where
  "ToNumber VUndef = NaN"
| "ToNumber VNull = Fin 0"
| "ToNumber (VBool b) = Fin (if b then 1 else 0)"
| "ToNumber (VNum n) = n"
| "ToNumber (VStr s) = StringToNumber s"

section \<open>DetectionResult.tsx\<close>

subsection \<open>Detection records\<close>

text \<open>
  \<^verbatim>\<open>types.ts\<close>, interface \<^verbatim>\<open>Detection\<close>. \<^verbatim>\<open>imageIndex\<close> is declared a number, but the code
  expects strings too; the coordinates of \<^verbatim>\<open>box_2d\<close> are declared numbers and coerced by the
  code. \<^verbatim>\<open>box_2d\<close> is \<open>Some\<close> of the elements when it is an array (of any length) and \<open>None\<close>
  when it is a value that cannot be destructured (absent, \<^verbatim>\<open>null\<close>, a number, a boolean, a
  plain object). A string can be destructured, into its characters: it is \<open>Some\<close> of its
  one-character strings.
\<close>

record detection =
  label :: string
  confidence :: jsnum
  description :: string
  imageIndex :: jsval
  box_2d :: "jsval list option"

text \<open>
  An element of the parsed batch: \<^verbatim>\<open>null\<close>, on which a property access throws, or a value
  whose properties can be read.
\<close>

datatype batch_item = ItemNull | Item detection

subsection \<open>detectionsByImage\<close>

text \<open>
  \<^verbatim>\<open>Map<number, Detection[]>\<close>. A \<^verbatim>\<open>Map\<close> compares keys by value (SameValueZero), and at run
  time a key is whatever value \<^verbatim>\<open>idx\<close> holds.
\<close>

type_synonym detection_map = "jsval \<rightharpoonup> detection list"

text \<open>The key \<^verbatim>\<open>map.set(idx, [])\<close> uses for the image at position \<open>idx\<close>.\<close>

definition image_key :: "nat \<Rightarrow> jsval" where
  "image_key idx = VNum (Fin (of_nat idx))"

text \<open>\<^verbatim>\<open>images.forEach((_, idx) => map.set(idx, []))\<close> on an empty map.\<close>

definition init_map :: "nat \<Rightarrow> detection_map" where
  "init_map n = foldl (\<lambda>m idx. m(image_key idx \<mapsto> [])) Map.empty [0..<n]"

text \<open>
  \<^verbatim>\<open>const idx = typeof d.imageIndex === 'string' ? parseInt(d.imageIndex as any) : d.imageIndex\<close>
\<close>

definition coerce_index :: "jsval \<Rightarrow> jsval" where
  "coerce_index v = (case v of VStr s \<Rightarrow> VNum (parseInt s) | _ \<Rightarrow> v)"

text \<open>\<^verbatim>\<open>idx >= 0 && idx < images.length\<close>; both comparisons coerce \<^verbatim>\<open>idx\<close> to a number.\<close>

definition in_range :: "jsval \<Rightarrow> nat \<Rightarrow> bool" where
  "in_range idx n = (js_ge (ToNumber idx) (Fin 0) \<and> js_lt (ToNumber idx) (Fin (of_nat n)))"

text \<open>
  The body of \<^verbatim>\<open>detections.forEach(d => ...)\<close>. Reading \<^verbatim>\<open>d.imageIndex\<close> throws when \<^verbatim>\<open>d\<close> is
  \<^verbatim>\<open>null\<close>; \<^verbatim>\<open>map.get(idx)!.push(d)\<close> would throw on a missing key, which the line before it
  rules out.
\<close>

definition add_detection :: "nat \<Rightarrow> detection_map \<Rightarrow> batch_item \<Rightarrow> js_error + detection_map" where
  "add_detection n m item =
     (case item of
        ItemNull \<Rightarrow> Inl TypeError
      | Item d \<Rightarrow>
          (let idx = coerce_index (imageIndex d) in
           if in_range idx n then
             (let m1 = (if idx \<notin> dom m then m(idx \<mapsto> []) else m) in
              case m1 idx of
                None \<Rightarrow> Inl TypeError
              | Some g \<Rightarrow> Inr (m1(idx \<mapsto> g @ [d])))
           else Inr m))"

text \<open>\<^verbatim>\<open>forEach\<close> with a callback that may throw: the first exception ends the loop.\<close>

fun forEach :: "('s \<Rightarrow> 'a \<Rightarrow> js_error + 's) \<Rightarrow> 'a list \<Rightarrow> 's \<Rightarrow> js_error + 's" where
  "forEach f [] s = Inr s"
| "forEach f (x # xs) s = (case f s x of Inl e \<Rightarrow> Inl e | Inr s' \<Rightarrow> forEach f xs s')"

text \<open>The memoised grouping; \<open>n\<close> is \<^verbatim>\<open>images.length\<close>.\<close>

definition detectionsByImage :: "batch_item list \<Rightarrow> nat \<Rightarrow> js_error + detection_map" where
  "detectionsByImage detections n = forEach (add_detection n) detections (init_map n)"

subsection \<open>getBoxStyle\<close>

text \<open>
  The style object. Each field is the number the template string \<^verbatim>\<open>`${x}%`\<close> prints before
  the percent sign (the printed text determines the number and the number the text).
\<close>

record box_style =
  top_pct :: jsnum
  left_pct :: jsnum
  width_pct :: jsnum
  height_pct :: jsnum

text \<open>An element of a destructured array; \<^verbatim>\<open>undefined\<close> beyond its end.\<close>

definition elem :: "jsval list \<Rightarrow> nat \<Rightarrow> jsval" where
  "elem b i = (if i < length b then b ! i else VUndef)"

definition getBoxStyle :: "jsval list option \<Rightarrow> js_error + box_style" where
  "getBoxStyle box =
     (case box of
        None \<Rightarrow> Inl TypeError
      | Some b \<Rightarrow>
          (let ymin = ToNumber (elem b 0);
               xmin = ToNumber (elem b 1);
               ymax = ToNumber (elem b 2);
               xmax = ToNumber (elem b 3)
           in if js_le ymin (Fin (3 / 2)) \<and> js_le xmin (Fin (3 / 2))
                 \<and> js_le ymax (Fin (3 / 2)) \<and> js_le xmax (Fin (3 / 2))
              then Inr \<lparr>top_pct = js_mul ymin (Fin 100),
                        left_pct = js_mul xmin (Fin 100),
                        width_pct = js_mul (js_sub xmax xmin) (Fin 100),
                        height_pct = js_mul (js_sub ymax ymin) (Fin 100)\<rparr>
              else Inr \<lparr>top_pct = js_div ymin (Fin 10),
                        left_pct = js_div xmin (Fin 10),
                        width_pct = js_div (js_sub xmax xmin) (Fin 10),
                        height_pct = js_div (js_sub ymax ymin) (Fin 10)\<rparr>))"

subsection \<open>The selected image\<close>

text \<open>
  \<^verbatim>\<open>selectedIndex\<close> is component state that starts at 0 and is only ever set to 0 or to a
  position of \<^verbatim>\<open>images.map\<close>, hence a natural number.
  \<^verbatim>\<open>const safeIndex = selectedIndex >= images.length ? 0 : selectedIndex\<close>
\<close>

definition safeIndex :: "nat \<Rightarrow> nat \<Rightarrow> nat" where
  "safeIndex selectedIndex n = (if selectedIndex \<ge> n then 0 else selectedIndex)"

text \<open>
  Lines 95 to 104 of the component: the two early \<^verbatim>\<open>return null\<close> are \<open>None\<close>, otherwise the
  index used by the rest of the render and the image it addresses.
\<close>

definition resolve :: "'img list \<Rightarrow> nat \<Rightarrow> (nat \<times> 'img) option" where
  "resolve images selectedIndex =
     (if length images = 0 then None
      else (let i = safeIndex selectedIndex (length images) in
            if i < length images then Some (i, images ! i) else None))"

text \<open>
  What one render pass shows: nothing, or the selected position, its image, the defects
  listed for it and one overlay rectangle per defect.
\<close>

datatype 'img view = Suppressed | Shown nat 'img "detection list" "box_style list"

text \<open>\<^verbatim>\<open>currentDefects.map(det => ... getBoxStyle(det.box_2d) ...)\<close>\<close>

fun overlays :: "detection list \<Rightarrow> js_error + box_style list" where
  "overlays [] = Inr []"
| "overlays (d # ds) =
     (case getBoxStyle (box_2d d) of
        Inl e \<Rightarrow> Inl e
      | Inr st \<Rightarrow> (case overlays ds of Inl e \<Rightarrow> Inl e | Inr sts \<Rightarrow> Inr (st # sts)))"

text \<open>
  The render function of the component: the grouping is computed first (hooks run before
  the early returns), then the selection is resolved, then
  \<^verbatim>\<open>detectionsByImage.get(safeIndex) || []\<close> is drawn.
\<close>

definition DetectionResult :: "batch_item list \<Rightarrow> 'img list \<Rightarrow> nat \<Rightarrow> js_error + 'img view" where
  "DetectionResult detections images selectedIndex =
     (case detectionsByImage detections (length images) of
        Inl e \<Rightarrow> Inl e
      | Inr m \<Rightarrow>
          (case resolve images selectedIndex of
             None \<Rightarrow> Inr Suppressed
           | Some (i, currentImage) \<Rightarrow>
               (let currentDefects = (case m (image_key i) of Some g \<Rightarrow> g | None \<Rightarrow> []) in
                case overlays currentDefects of
                  Inl e \<Rightarrow> Inl e
                | Inr sts \<Rightarrow> Inr (Shown i currentImage currentDefects sts))))"

section \<open>App.tsx\<close>

subsection \<open>The persistent prompt fields and their history\<close>

text \<open>
  \<^verbatim>\<open>localStorage\<close>: either every access throws (storage disabled for the page), or it maps
  keys to strings.
\<close>

datatype storage = Blocked | Store "string \<rightharpoonup> string"

definition getItem :: "storage \<Rightarrow> string \<Rightarrow> js_error + string option" where
  "getItem st key = (case st of Blocked \<Rightarrow> Inl SecurityError | Store m \<Rightarrow> Inr (m key))"

text \<open>
  The initial state of \<^verbatim>\<open>usePersistentString\<close>:
  \<^verbatim>\<open>try { return localStorage.getItem(key) ?? defaultValue } catch (e) { return defaultValue }\<close>
\<close>

definition usePersistentString_init :: "storage \<Rightarrow> string \<Rightarrow> string \<Rightarrow> string" where
  "usePersistentString_init st key defaultValue =
     (case getItem st key of
        Inl e \<Rightarrow> defaultValue
      | Inr None \<Rightarrow> defaultValue
      | Inr (Some v) \<Rightarrow> v)"

text \<open>The values \<^verbatim>\<open>JSON.parse\<close> returns.\<close>

datatype json =
  JNull | JBool bool | JNumber jsnum | JString string | JArray "json list"
  | JObject "(string \<times> json) list"

text \<open>
  The initial state of \<^verbatim>\<open>useHistory\<close>:
  \<^verbatim>\<open>try { const saved = localStorage.getItem(`${key}_history`);
        return saved ? JSON.parse(saved) : [] } catch { return [] }\<close>
  \<^verbatim>\<open>JSON.parse\<close> is a function of the platform and a parameter here; it returns a value or
  throws a \<^verbatim>\<open>SyntaxError\<close>. The state is declared \<^verbatim>\<open>string[]\<close> and holds whatever was parsed.
\<close>

definition useHistory_init :: "(string \<Rightarrow> js_error + json) \<Rightarrow> storage \<Rightarrow> string \<Rightarrow> json" where
  "useHistory_init JSON_parse st key =
     (case getItem st (key @ ''_history'') of
        Inl e \<Rightarrow> JArray []
      | Inr None \<Rightarrow> JArray []
      | Inr (Some saved) \<Rightarrow>
          if saved = [] then JArray []
          else (case JSON_parse saved of Inl e \<Rightarrow> JArray [] | Inr v \<Rightarrow> v))"

text \<open>
  \<^verbatim>\<open>getLatestFromHistory\<close> (the file that exports \<^verbatim>\<open>HISTORY_KEYS\<close>) reads the same entry:
  \<^verbatim>\<open>if (historyJson) { const history = JSON.parse(historyJson);
        if (Array.isArray(history) && history.length > 0) return history[0] }\<close>
  inside a \<^verbatim>\<open>try\<close> whose \<^verbatim>\<open>catch\<close> only warns, and \<^verbatim>\<open>return ""\<close> after it.
\<close>

definition getLatestFromHistory :: "(string \<Rightarrow> js_error + json) \<Rightarrow> storage \<Rightarrow> string \<Rightarrow> json" where
  "getLatestFromHistory JSON_parse st key =
     (case getItem st (key @ ''_history'') of
        Inl e \<Rightarrow> JString []
      | Inr None \<Rightarrow> JString []
      | Inr (Some historyJson) \<Rightarrow>
          if historyJson = [] then JString []
          else (case JSON_parse historyJson of
                  Inr (JArray (x # xs)) \<Rightarrow> x
                | _ \<Rightarrow> JString []))"

text \<open>A history as the state's declared type has it: an array whose elements are strings.\<close>

fun is_string_array :: "json \<Rightarrow> bool" where
  "is_string_array (JArray xs) = list_all (\<lambda>x. case x of JString _ \<Rightarrow> True | _ \<Rightarrow> False) xs"
| "is_string_array _ = False"

definition MAX_HISTORY :: nat where
  "MAX_HISTORY = 10"

text \<open>
  \<^verbatim>\<open>commit\<close> of \<^verbatim>\<open>useHistory\<close>, as the function from the history before to the history after
  (the updater passed to \<^verbatim>\<open>setHistory\<close>, guarded by \<^verbatim>\<open>if (!currentValue.trim()) return\<close>).
\<close>

definition commit :: "string \<Rightarrow> string list \<Rightarrow> string list" where
  "commit currentValue prev =
     (if js_trim currentValue = [] then prev
      else if length prev > 0 \<and> prev ! 0 = currentValue then prev
      else take MAX_HISTORY (currentValue # prev))"

text \<open>
  The same operation in the words of the specification: no-op on a blank value, no-op
  when the most recent entry equals the value, otherwise prepend and keep the ten most
  recent.
\<close>

definition commit_spec :: "string \<Rightarrow> string list \<Rightarrow> string list" where
  "commit_spec v h =
     (if js_trim v = [] then h
      else (case h of
              x # _ \<Rightarrow> if x = v then h else take 10 (v # h)
            | [] \<Rightarrow> take 10 (v # h)))"

text \<open>Committing a sequence of values one after the other, oldest first.\<close>

definition commit_all :: "string list \<Rightarrow> string list \<Rightarrow> string list" where
  "commit_all vs h = foldl (\<lambda>h v. commit v h) h vs"

subsection \<open>handleSubmit\<close>

datatype SendingStatus = IDLE | LOADING | SUCCESS | ERROR

datatype view_mode = Visual | Raw | Debug

text \<open>The state of the \<^verbatim>\<open>App\<close> component that \<^verbatim>\<open>handleSubmit\<close> reads and writes.\<close>

record app_state =
  role :: string
  criteria :: string
  attributes :: string
  format :: string
  roleHistory :: "string list"
  criteriaHistory :: "string list"
  attributesHistory :: "string list"
  formatHistory :: "string list"
  status :: SendingStatus
  responseText :: string
  errorMsg :: "string option"
  parsedDetections :: "json list option"
  viewMode :: view_mode
  debugRequest :: string

definition newline :: string where
  "newline = [CHR 0x0A]"

definition constructFullPrompt :: "app_state \<Rightarrow> string" where
  "constructFullPrompt s =
     ''## ROLE & OBJECTIVE'' @ newline @ role s @ newline @ newline
     @ ''## VISUAL DEFECT CRITERIA'' @ newline @ criteria s @ newline @ newline
     @ ''## ATTRIBUTE DEFINITIONS'' @ newline @ attributes s @ newline @ newline
     @ ''## OUTPUT FORMAT INSTRUCTIONS'' @ newline @ format s"

text \<open>
  A property of a parsed object (\<^verbatim>\<open>json.items\<close>); when a key is repeated in the text,
  \<^verbatim>\<open>JSON.parse\<close> keeps the last value.
\<close>

definition get_prop :: "(string \<times> json) list \<Rightarrow> string \<Rightarrow> json option" where
  "get_prop kvs k = map_of (rev kvs) k"

text \<open>
  The inner \<^verbatim>\<open>try\<close> of \<^verbatim>\<open>handleSubmit\<close>: the parse of the response text and the choice of
  what to display. Reading \<^verbatim>\<open>json.items\<close> of \<^verbatim>\<open>null\<close> throws, and the \<^verbatim>\<open>catch\<close> of that
  \<^verbatim>\<open>try\<close> switches to the raw view like a parse failure.
\<close>

definition show_response :: "(string \<Rightarrow> js_error + json) \<Rightarrow> string \<Rightarrow> app_state \<Rightarrow> app_state" where
  "show_response JSON_parse text s =
     (case JSON_parse text of
        Inl e \<Rightarrow> s\<lparr>viewMode := Raw\<rparr>
      | Inr (JArray xs) \<Rightarrow> s\<lparr>parsedDetections := Some xs, viewMode := Visual\<rparr>
      | Inr (JObject kvs) \<Rightarrow>
          (case get_prop kvs ''items'' of
             Some (JArray xs) \<Rightarrow> s\<lparr>parsedDetections := Some xs, viewMode := Visual\<rparr>
           | _ \<Rightarrow> s\<lparr>viewMode := Raw\<rparr>)
      | Inr _ \<Rightarrow> s\<lparr>viewMode := Raw\<rparr>)"

text \<open>
  \<^verbatim>\<open>handleSubmit\<close>, as a function of the state before and of how the awaited call
  \<^verbatim>\<open>generateContentWithGemini\<close> ends: \<open>Inl\<close> the message of the error it throws, \<open>Inr\<close> the
  text it returns. \<open>debugPayload\<close> is the string \<^verbatim>\<open>prepareDebugInfo\<close> stores.
\<close>

definition handleSubmit ::
    "(string \<Rightarrow> js_error + json) \<Rightarrow> string \<Rightarrow> string + string \<Rightarrow> app_state \<Rightarrow> app_state" where
  "handleSubmit JSON_parse debugPayload outcome s =
     (let fullPrompt = constructFullPrompt s in
      if js_trim fullPrompt = [] then s\<lparr>errorMsg := Some ''Prompt is empty.''\<rparr>
      else
        (let s1 = s\<lparr>roleHistory := commit (role s) (roleHistory s),
                     criteriaHistory := commit (criteria s) (criteriaHistory s),
                     attributesHistory := commit (attributes s) (attributesHistory s),
                     formatHistory := commit (format s) (formatHistory s)\<rparr>;
             s2 = s1\<lparr>status := LOADING, responseText := [], parsedDetections := None,
                      errorMsg := None, viewMode := Visual, debugRequest := debugPayload\<rparr>
         in case outcome of
              Inr text \<Rightarrow>
                (show_response JSON_parse text (s2\<lparr>responseText := text\<rparr>))\<lparr>status := SUCCESS\<rparr>
            | Inl message \<Rightarrow>
                s2\<lparr>errorMsg := Some (if message = [] then ''Something went wrong.'' else message),
                    status := ERROR\<rparr>))"

section \<open>Notions used to state the properties\<close>

text \<open>The value of \<^verbatim>\<open>idx\<close> for a record, and the test that guards the insertion.\<close>

definition key_of :: "detection \<Rightarrow> jsval" where
  "key_of d = coerce_index (imageIndex d)"

definition accepted :: "nat \<Rightarrow> detection \<Rightarrow> bool" where
  "accepted n d = in_range (key_of d) n"

text \<open>
  \<^verbatim>\<open>detectionsByImage.get(k)\<close> on the outcome of the grouping: \<open>None\<close> where the key is absent
  (or no map was built).
\<close>

definition group_at :: "js_error + detection_map \<Rightarrow> jsval \<Rightarrow> detection list option" where
  "group_at r k = (case r of Inl e \<Rightarrow> None | Inr m \<Rightarrow> m k)"

text \<open>An \<^verbatim>\<open>imageIndex\<close> that is a string or a number with an integer value.\<close>

fun integral_index :: "jsval \<Rightarrow> bool" where
  "integral_index (VStr s) = True"
| "integral_index (VNum (Fin q)) = (q = of_int \<lfloor>q\<rfloor>)"
| "integral_index _ = False"

text \<open>
  The record of the end-to-end example of the specification, with a chosen \<^verbatim>\<open>imageIndex\<close>
  and a chosen box.
\<close>

definition example_detection :: "jsval \<Rightarrow> jsval list \<Rightarrow> detection" where
  "example_detection i b =
     \<lparr>label = ''HOLES'', confidence = Fin (9 / 10), description = ''x'', imageIndex = i,
      box_2d = Some b\<rparr>"

text \<open>A box of four finite numbers.\<close>

definition box_of :: "rat \<Rightarrow> rat \<Rightarrow> rat \<Rightarrow> rat \<Rightarrow> jsval list" where
  "box_of ymin xmin ymax xmax = [VNum (Fin ymin), VNum (Fin xmin), VNum (Fin ymax), VNum (Fin xmax)]"



text \<open>
  \<^verbatim>\<open>JSON.parse\<close> on the two texts the examples use; every other text counts as malformed
  there.
\<close>

definition example_JSON_parse :: "string \<Rightarrow> js_error + json" where
  "example_JSON_parse s =
     (if s = ''{}'' then Inr (JObject [])
      else if s = ''[]'' then Inr (JArray [])
      else Inl SyntaxError)"

text \<open>An \<^verbatim>\<open>App\<close> state before any run, with short prompt fields.\<close>

definition initial_state :: app_state where
  "initial_state =
     \<lparr>role = ''role'', criteria = ''criteria'', attributes = ''attributes'', format = ''format'',
      roleHistory = [], criteriaHistory = [], attributesHistory = [], formatHistory = [],
      status = IDLE, responseText = [], errorMsg = None, parsedDetections = None,
      viewMode = Visual, debugRequest = []\<rparr>"

section \<open>Properties of the rounding\<close>

lemma pow2_pos: "0 < pow2 e"
  by (simp add: pow2_def)

lemma pow2_add: "pow2 (a + b) = pow2 a * pow2 b"
  by (simp add: pow2_def power_int_add)

lemma pow2_diff: "pow2 (a - b) = pow2 a / pow2 b"
  by (simp add: pow2_def power_int_diff)

lemma pow2_mono: "a \<le> b \<Longrightarrow> pow2 a \<le> pow2 b"
  by (simp add: pow2_def power_int_increasing)

lemma pow2_less_imp: "pow2 a < pow2 b \<Longrightarrow> a < b"
  using pow2_mono [of b a] by (cases "a < b") auto

lemma pow2_nat: "0 \<le> e \<Longrightarrow> pow2 e = of_int (2 ^ nat e)"
  by (simp add: pow2_def power_int_nonneg_exp)

lemma pow2_bitlen:
  assumes "0 < x"
  shows "pow2 (bitlen x - 1) \<le> of_int x" "of_int x < pow2 (bitlen x)"
proof -
  from assms have b: "1 \<le> bitlen x"
    by (simp add: bitlen_alt_def)
  from bitlen_bounds [OF assms] have "(2::int) ^ nat (bitlen x - 1) \<le> x" "x < 2 ^ nat (bitlen x)"
    by simp_all
  then have "(of_int (2 ^ nat (bitlen x - 1)) :: rat) \<le> of_int x" "(of_int x :: rat) < of_int (2 ^ nat (bitlen x))"
    by (simp_all only: of_int_le_iff of_int_less_iff)
  with b show "pow2 (bitlen x - 1) \<le> of_int x" "of_int x < pow2 (bitlen x)"
    by (simp_all add: pow2_nat)
qed

text \<open>\<open>floor_log2\<close> is the exponent: \<open>2\<^sup>e \<le> a < 2\<^sup>e\<^sup>+\<^sup>1\<close>.\<close>

lemma floor_log2_bounds:
  assumes "0 < a"
  shows "pow2 (floor_log2 a) \<le> a" "a < pow2 (floor_log2 a + 1)"
proof -
  obtain p q where pq: "quotient_of a = (p, q)" by (cases "quotient_of a")
  then have q: "0 < q" by (rule quotient_of_denom_pos)
  from pq have a: "a = of_int p / of_int q" by (rule quotient_of_div)
  with assms q have p: "0 < p" by (simp add: zero_less_divide_iff)
  let ?d = "bitlen p - bitlen q"
  have fl: "floor_log2 a = (if pow2 ?d \<le> a then ?d else ?d - 1)"
    by (simp add: floor_log2_def pq)
  have qpos: "(0::rat) < of_int q" using q by simp
  have "pow2 (bitlen p - 1) / pow2 (bitlen q) \<le> of_int p / pow2 (bitlen q)"
    using pow2_bitlen(1) [OF p] pow2_pos [of "bitlen q"] by (simp add: divide_right_mono)
  also have "\<dots> \<le> of_int p / of_int q"
    using pow2_bitlen(2) [OF q] p qpos by (simp add: frac_le)
  finally have lower: "pow2 (?d - 1) \<le> a"
    by (simp add: a pow2_diff [symmetric] algebra_simps)
  have "of_int p / of_int q \<le> of_int p / pow2 (bitlen q - 1)"
    using pow2_bitlen(1) [OF q] p pow2_pos [of "bitlen q - 1"] by (simp add: frac_le)
  also have "\<dots> < pow2 (bitlen p) / pow2 (bitlen q - 1)"
    using pow2_bitlen(2) [OF p] pow2_pos [of "bitlen q - 1"] by (simp add: divide_strict_right_mono)
  finally have upper: "a < pow2 (?d + 1)"
    by (simp add: a pow2_diff [symmetric] algebra_simps)
  show "pow2 (floor_log2 a) \<le> a"
    using lower by (simp add: fl)
  show "a < pow2 (floor_log2 a + 1)"
    using upper by (auto simp: fl)
qed








text \<open>Rounding an integer gives an integer, or an infinity.\<close>

lemma round_half_even_of_int: "round_half_even (of_int k) = k"
  by (simp add: round_half_even_def)

lemma fl64_pos_of_int:
  assumes "0 < n"
  shows "fl64_pos (of_int n) = PosInf \<or> (\<exists>y. fl64_pos (of_int n) = Fin (of_int y))"
proof -
  let ?a = "of_int n :: rat"
  have a: "0 < ?a" using assms by simp
  let ?f = "floor_log2 ?a"
  have "pow2 0 \<le> ?a" using assms by (simp add: pow2_def)
  with floor_log2_bounds(2) [OF a] have "pow2 0 < pow2 (?f + 1)" by simp
  then have f: "0 \<le> ?f" using pow2_less_imp by fastforce
  then have e: "max ?f (- 1022) = ?f" by simp
  let ?m = "round_half_even (?a / pow2 (?f - 52))"
  have "\<exists>y. of_int ?m * pow2 (?f - 52) = (of_int y :: rat)"
  proof (cases "52 \<le> ?f")
    case True
    then have "pow2 (?f - 52) = of_int (2 ^ nat (?f - 52))" by (simp add: pow2_nat)
    then have "of_int ?m * pow2 (?f - 52) = (of_int (?m * 2 ^ nat (?f - 52)) :: rat)" by simp
    then show ?thesis ..
  next
    case False
    then have "0 \<le> 52 - ?f" by simp
    then have p: "pow2 (52 - ?f) = of_int (2 ^ nat (52 - ?f))" by (rule pow2_nat)
    have "pow2 (?f - 52) * pow2 (52 - ?f) = 1"
      using pow2_add [of "?f - 52" "52 - ?f"] by (simp add: pow2_def)
    then have inv: "?a / pow2 (?f - 52) = ?a * pow2 (52 - ?f)"
      using pow2_pos [of "?f - 52"] by (simp add: field_simps)
    then have "?a / pow2 (?f - 52) = of_int (n * 2 ^ nat (52 - ?f))"
      using p by simp
    then have "?m = n * 2 ^ nat (52 - ?f)"
      by (simp only: round_half_even_of_int)
    then have "of_int ?m * pow2 (?f - 52) = ?a * pow2 (52 - ?f) * pow2 (?f - 52)"
      using p by simp
    also have "\<dots> = ?a"
      using \<open>pow2 (?f - 52) * pow2 (52 - ?f) = 1\<close> by (simp add: mult.assoc mult.commute)
    finally show ?thesis by blast
  qed
  then show ?thesis
    unfolding fl64_pos_def Let_def e by (simp only: split: if_split) blast
qed

lemma fl64_of_int:
  "fl64 (of_int z) = PosInf \<or> fl64 (of_int z) = NegInf \<or> (\<exists>y. fl64 (of_int z) = Fin (of_int y))"
proof -
  consider "z = 0" | "0 < z" | "z < 0" by linarith
  then show ?thesis
  proof cases
    case 1
    have "Fin 0 = Fin (of_int 0)" by simp
    with 1 show ?thesis unfolding fl64_def by (metis of_int_0)
  next
    case 2
    with fl64_pos_of_int [OF 2] show ?thesis by (auto simp: fl64_def)
  next
    case 3
    then have p: "0 < - z" by simp
    from fl64_pos_of_int [OF p] have
      "fl64_pos (- of_int z) = PosInf \<or> (\<exists>y. fl64_pos (- of_int z) = Fin (of_int y))" by simp
    then show ?thesis
    proof
      assume "fl64_pos (- of_int z) = PosInf"
      with 3 show ?thesis by (simp add: fl64_def)
    next
      assume "\<exists>y. fl64_pos (- of_int z) = Fin (of_int y)"
      then obtain y where "fl64_pos (- of_int z) = Fin (of_int y)" ..
      with 3 have "fl64 (of_int z) = Fin (of_int (- y))" by (simp add: fl64_def)
      then show ?thesis by blast
    qed
  qed
qed

section \<open>Properties of the grouping\<close>

lemma init_map_Suc: "init_map (Suc n) = (init_map n)(image_key n \<mapsto> [])"
  by (simp add: init_map_def)

lemma init_map_apply: "init_map n k = (if k \<in> image_key ` {..<n} then Some [] else None)"
proof (induction n)
  case 0
  show ?case by (simp add: init_map_def)
next
  case (Suc n)
  show ?case
    using Suc by (auto simp: init_map_Suc lessThan_Suc)
qed

lemma add_detection_Item:
  "add_detection n m (Item d) =
     Inr (if accepted n d
          then m(key_of d \<mapsto> (case m (key_of d) of None \<Rightarrow> [] | Some g \<Rightarrow> g) @ [d])
          else m)"
  by (auto simp: add_detection_def accepted_def key_of_def Let_def dom_def split: option.splits)

text \<open>
  The loop over a batch of records, from any map: a key is present afterwards when it was
  present before or is the key of an accepted record, and its sequence is extended by the
  accepted records of that key in the order of the batch.
\<close>

lemma forEach_items:
  "forEach (add_detection n) (map Item ds) m =
     Inr (\<lambda>k. if m k \<noteq> None \<or> (\<exists>d \<in> set ds. accepted n d \<and> key_of d = k)
              then Some ((case m k of None \<Rightarrow> [] | Some g \<Rightarrow> g)
                         @ filter (\<lambda>d. accepted n d \<and> key_of d = k) ds)
              else None)"
proof (induction ds arbitrary: m)
  case Nil
  show ?case by (auto simp: fun_eq_iff split: option.splits)
next
  case (Cons d ds)
  show ?case
    by (simp add: add_detection_Item Cons.IH) (auto simp: fun_eq_iff split: option.splits)
qed

lemma forEach_null:
  "ItemNull \<in> set items \<Longrightarrow> forEach (add_detection n) items m = Inl TypeError"
proof (induction items arbitrary: m)
  case Nil
  then show ?case by simp
next
  case (Cons x xs)
  show ?case
  proof (cases x)
    case ItemNull
    then show ?thesis by (simp add: add_detection_def)
  next
    case (Item d)
    with Cons show ?thesis by (simp add: add_detection_Item)
  qed
qed

lemma detectionsByImage_items:
  "detectionsByImage (map Item ds) n =
     Inr (\<lambda>k. if k \<in> image_key ` {..<n} \<or> (\<exists>d \<in> set ds. accepted n d \<and> key_of d = k)
              then Some (filter (\<lambda>d. accepted n d \<and> key_of d = k) ds)
              else None)"
  by (simp add: detectionsByImage_def forEach_items init_map_apply fun_eq_iff)

lemma detectionsByImage_null:
  "ItemNull \<in> set items \<Longrightarrow> detectionsByImage items n = Inl TypeError"
  by (simp add: detectionsByImage_def forEach_null)

lemma detectionsByImage_total: "\<exists>m. detectionsByImage (map Item ds) n = Inr m"
  by (simp add: detectionsByImage_items)

lemma no_null_items: "ItemNull \<notin> set items \<Longrightarrow> \<exists>ds. items = map Item ds"
proof (induction items)
  case Nil
  show ?case by simp
next
  case (Cons x xs)
  then obtain ds where "xs = map Item ds" by auto
  moreover from Cons.prems obtain d where "x = Item d" by (cases x) auto
  ultimately have "x # xs = map Item (d # ds)" by simp
  then show ?case ..
qed

lemma in_range_Fin: "in_range (VNum (Fin q)) n \<longleftrightarrow> 0 \<le> q \<and> q < of_nat n"
  by (simp add: in_range_def js_ge_def)


lemma image_key_in_range: "i < n \<Longrightarrow> in_range (image_key i) n"
  by (simp add: image_key_def in_range_Fin)

lemma in_range_int_key:
  assumes "in_range (VNum (Fin (of_int z))) n"
  shows "VNum (Fin (of_int z)) \<in> image_key ` {..<n}"
proof -
  from assms have z: "0 \<le> z" "z < int n" by (simp_all add: in_range_Fin)
  then have "nat z < n" by simp
  moreover from z have "image_key (nat z) = VNum (Fin (of_int z))"
    by (simp add: image_key_def)
  ultimately show ?thesis by (metis imageI lessThan_iff)
qed

lemma if_NaN_fl64:
  "(if c then NaN else fl64 (of_int e)) = NaN \<or> (if c then NaN else fl64 (of_int e)) = PosInf
   \<or> (if c then NaN else fl64 (of_int e)) = NegInf
   \<or> (\<exists>z. (if c then NaN else fl64 (of_int e)) = Fin (of_int z))"
  using fl64_of_int [of e] by (cases c) (simp_all only: if_True if_False, blast+)

text \<open>\<^verbatim>\<open>parseInt\<close> yields \<open>NaN\<close>, an infinity or an integer.\<close>

lemma parseInt_cases:
  "parseInt s = NaN \<or> parseInt s = PosInf \<or> parseInt s = NegInf \<or> (\<exists>z. parseInt s = Fin (of_int z))"
  unfolding parseInt_def Let_def by (rule if_NaN_fl64)

lemma integral_key:
  assumes "integral_index (imageIndex d)" "accepted n d"
  shows "key_of d \<in> image_key ` {..<n}"
proof (cases "imageIndex d")
  case (VStr s)
  then have k: "key_of d = VNum (parseInt s)" by (simp add: key_of_def coerce_index_def)
  with assms(2) have "parseInt s \<noteq> NaN" "parseInt s \<noteq> PosInf" "parseInt s \<noteq> NegInf"
    by (auto simp: accepted_def in_range_def js_ge_def)
  with parseInt_cases [of s] obtain z where "parseInt s = Fin (of_int z)" by auto
  with k assms(2) show ?thesis by (simp add: accepted_def in_range_int_key)
next
  case (VNum x)
  with assms(1) obtain q where q: "x = Fin q" "q = of_int \<lfloor>q\<rfloor>" by (cases x) auto
  with VNum have "key_of d = VNum (Fin (of_int \<lfloor>q\<rfloor>))" by (simp add: key_of_def coerce_index_def)
  with assms(2) show ?thesis by (simp add: accepted_def in_range_int_key)
qed (use assms in auto)

text \<open>
  C4, as stated, fails: with three images, a record whose \<^verbatim>\<open>imageIndex\<close> is the number 1.5
  passes the range test and is stored under the key 1.5, which is none of the positions
  0, 1, 2.
\<close>

theorem fractional_key_counterexample:
  "group_at (detectionsByImage [Item (example_detection (VNum (Fin (3 / 2))) (box_of 10 10 50 50))] 3)
      (VNum (Fin (3 / 2)))
     = Some [example_detection (VNum (Fin (3 / 2))) (box_of 10 10 50 50)]
   \<and> VNum (Fin (3 / 2)) \<notin> image_key ` {..<3}"
proof -
  have "VNum (Fin (3 / 2)) \<notin> image_key ` {..<3}"
    by (simp add: image_key_def lessThan_Suc numeral_3_eq_3)
  moreover have
    "group_at (detectionsByImage (map Item [example_detection (VNum (Fin (3 / 2))) (box_of 10 10 50 50)]) 3)
        (VNum (Fin (3 / 2)))
       = Some [example_detection (VNum (Fin (3 / 2))) (box_of 10 10 50 50)]"
    unfolding detectionsByImage_items
    by (simp add: group_at_def accepted_def key_of_def example_detection_def coerce_index_def
        in_range_Fin)
  ultimately show ?thesis by simp
qed

text \<open>
  C4, amended. Whenever the grouping is built (the batch holds no \<^verbatim>\<open>null\<close>): every position
  below the image count is a key; a position that is the index of no record holds the
  empty sequence; every key, coerced to a number, lies in the range from 0 to the image
  count; and when every \<^verbatim>\<open>imageIndex\<close> of the batch is a string or an integer-valued number,
  the keys are exactly the positions below the image count.
\<close>

theorem detectionsByImage_keys:
  assumes "detectionsByImage items n = Inr m"
  shows "image_key ` {..<n} \<subseteq> dom m
       \<and> (\<forall>i<n. (\<forall>d. Item d \<in> set items \<longrightarrow> key_of d \<noteq> image_key i) \<longrightarrow> m (image_key i) = Some [])
       \<and> (\<forall>k \<in> dom m. in_range k n)
       \<and> ((\<forall>d. Item d \<in> set items \<longrightarrow> integral_index (imageIndex d))
            \<longrightarrow> dom m = image_key ` {..<n})"
proof -
  from assms have "ItemNull \<notin> set items"
    using detectionsByImage_null by fastforce
  then obtain ds where ds: "items = map Item ds"
    using no_null_items by blast
  then have items: "\<And>d. Item d \<in> set items \<longleftrightarrow> d \<in> set ds" by auto
  from assms ds have m:
    "m = (\<lambda>k. if k \<in> image_key ` {..<n} \<or> (\<exists>d \<in> set ds. accepted n d \<and> key_of d = k)
              then Some (filter (\<lambda>d. accepted n d \<and> key_of d = k) ds)
              else None)"
    by (simp add: detectionsByImage_items)
  have a: "image_key ` {..<n} \<subseteq> dom m"
    by (auto simp: m)
  have b: "\<forall>i<n. (\<forall>d. Item d \<in> set items \<longrightarrow> key_of d \<noteq> image_key i) \<longrightarrow> m (image_key i) = Some []"
    by (auto simp: m items filter_empty_conv)
  have c: "\<forall>k \<in> dom m. in_range k n"
    by (auto simp: m accepted_def image_key_in_range split: if_splits)
  have d: "(\<forall>d. Item d \<in> set items \<longrightarrow> integral_index (imageIndex d)) \<longrightarrow> dom m = image_key ` {..<n}"
  proof
    assume h: "\<forall>d. Item d \<in> set items \<longrightarrow> integral_index (imageIndex d)"
    have "dom m \<subseteq> image_key ` {..<n}"
    proof
      fix k assume "k \<in> dom m"
      then consider "k \<in> image_key ` {..<n}" | d where "d \<in> set ds" "accepted n d" "key_of d = k"
        by (auto simp: m split: if_splits)
      then show "k \<in> image_key ` {..<n}"
      proof cases
        case 1
        then show ?thesis .
      next
        case 2
        with h items integral_key show ?thesis by blast
      qed
    qed
    with a show "dom m = image_key ` {..<n}" by blast
  qed
  from a b c d show ?thesis by blast
qed

text \<open>
  The batch of the end-to-end example of the specification (\<^verbatim>\<open>imageIndex\<close> \<^verbatim>\<open>"1"\<close> and 7, three
  images): both indices are integral, the grouping is built, and its keys are 0, 1, 2.
\<close>

theorem detectionsByImage_keys_witness:
  "integral_index (VStr ''1'') \<and> integral_index (VNum (Fin 7))
   \<and> \<not> isl (detectionsByImage
         [Item (example_detection (VStr ''1'') (box_of 10 10 50 50)),
          Item (example_detection (VNum (Fin 7)) (box_of 10 10 50 50))] 3)
   \<and> dom (projr (detectionsByImage
         [Item (example_detection (VStr ''1'') (box_of 10 10 50 50)),
          Item (example_detection (VNum (Fin 7)) (box_of 10 10 50 50))] 3))
       = image_key ` {..<3}"
proof -
  let ?d1 = "example_detection (VStr ''1'') (box_of 10 10 50 50)"
  let ?d7 = "example_detection (VNum (Fin 7)) (box_of 10 10 50 50)"
  let ?items = "[Item ?d1, Item ?d7]"
  obtain m where "detectionsByImage (map Item [?d1, ?d7]) 3 = Inr m"
    using detectionsByImage_total by blast
  then have m: "detectionsByImage ?items 3 = Inr m"
    by simp
  have i: "\<forall>d. Item d \<in> set ?items \<longrightarrow> integral_index (imageIndex d)"
    by (auto simp: example_detection_def)
  have "dom m = image_key ` {..<3}"
    using detectionsByImage_keys [OF m] i by (elim conjE impE) assumption
  then show ?thesis
    by (simp add: m)
qed






text \<open>
  C10. Only a string \<^verbatim>\<open>imageIndex\<close> goes through \<^verbatim>\<open>parseInt\<close>; a number is used as it is. So a
  record of the batch whose \<^verbatim>\<open>imageIndex\<close> is a number \<open>f\<close> with a fractional part and
  \<open>0 \<le> f < n\<close> is accepted and stored under the key \<open>f\<close> itself, a key that the
  initialisation for the \<open>n\<close> images did not create.
\<close>

theorem fractional_index_kept_as_key:
  assumes "d \<in> set ds" "imageIndex d = VNum (Fin f)" "0 \<le> f" "f < of_nat n" "f \<noteq> of_int \<lfloor>f\<rfloor>"
  shows "(\<forall>s. coerce_index (VStr s) = VNum (parseInt s))
       \<and> (\<forall>x. coerce_index (VNum x) = VNum x)
       \<and> key_of d = VNum (Fin f)
       \<and> (\<exists>m g. detectionsByImage (map Item ds) n = Inr m \<and> m (VNum (Fin f)) = Some g \<and> d \<in> set g)
       \<and> init_map n (VNum (Fin f)) = None
       \<and> VNum (Fin f) \<notin> image_key ` {..<n}"
proof -
  have k: "key_of d = VNum (Fin f)"
    using assms(2) by (simp add: key_of_def coerce_index_def)
  have a: "accepted n d"
    using assms(3,4) by (simp add: accepted_def k in_range_Fin)
  have notin: "VNum (Fin f) \<notin> image_key ` {..<n}"
  proof
    assume "VNum (Fin f) \<in> image_key ` {..<n}"
    then obtain i where "f = of_nat i" by (auto simp: image_key_def)
    then have "f = of_int \<lfloor>f\<rfloor>" by simp
    with assms(5) show False by simp
  qed
  have "\<exists>m g. detectionsByImage (map Item ds) n = Inr m \<and> m (VNum (Fin f)) = Some g \<and> d \<in> set g"
    using assms(1) a k by (auto simp: detectionsByImage_items)
  with k notin show ?thesis
    by (simp add: coerce_index_def init_map_apply)
qed

text \<open>The index 1.5 with three images.\<close>

theorem fractional_index_kept_as_key_witness:
  "(0::rat) \<le> 3 / 2 \<and> (3 / 2 :: rat) < of_nat 3 \<and> (3 / 2 :: rat) \<noteq> of_int \<lfloor>3 / 2 :: rat\<rfloor>
   \<and> (\<exists>g. group_at (detectionsByImage
              (map Item [example_detection (VNum (Fin (3 / 2))) (box_of 10 10 50 50)]) 3)
             (VNum (Fin (3 / 2))) = Some g
          \<and> example_detection (VNum (Fin (3 / 2))) (box_of 10 10 50 50) \<in> set g)
   \<and> init_map 3 (VNum (Fin (3 / 2))) = None"
proof -
  let ?d = "example_detection (VNum (Fin (3 / 2))) (box_of 10 10 50 50)"
  have fl: "\<lfloor>3 / 2 :: rat\<rfloor> = 1"
    by (rule floor_unique) simp_all
  have h: "?d \<in> set [?d]" "imageIndex ?d = VNum (Fin (3 / 2))" "(0::rat) \<le> 3 / 2"
    "(3 / 2 :: rat) < of_nat 3" "(3 / 2 :: rat) \<noteq> of_int \<lfloor>3 / 2 :: rat\<rfloor>"
    by (simp_all add: example_detection_def fl)
  from fractional_index_kept_as_key [OF h]
  obtain m g where "detectionsByImage (map Item [?d]) 3 = Inr m" "m (VNum (Fin (3 / 2))) = Some g"
    "?d \<in> set g" and i: "init_map 3 (VNum (Fin (3 / 2))) = None"
    by blast
  then have "\<exists>g. group_at (detectionsByImage (map Item [?d]) 3) (VNum (Fin (3 / 2))) = Some g \<and> ?d \<in> set g"
    by (simp add: group_at_def)
  with h(3,4,5) i show ?thesis by blast
qed

section \<open>Properties of the box style\<close>




















section \<open>Boxes that are not numeric\<close>

lemma js_le_NaN: "js_le NaN x = False"
  by simp

lemma js_sub_NaN: "js_sub NaN x = NaN" "js_sub x NaN = NaN"
  by (cases x; simp add: js_sub_def)+

lemma js_div_NaN: "js_div NaN x = NaN"
  by simp

lemma js_mul_NaN: "js_mul NaN x = NaN"
  by simp

text \<open>
  The style of an array of scalars of any length: there is one, and a coordinate that
  coerces to \<open>NaN\<close> makes the fields computed from it \<open>NaN\<close>.
\<close>

lemma getBoxStyle_Some:
  "\<exists>st. getBoxStyle (Some cs) = Inr st
     \<and> (ToNumber (elem cs 0) = NaN \<longrightarrow> top_pct st = NaN \<and> height_pct st = NaN)
     \<and> (ToNumber (elem cs 1) = NaN \<longrightarrow> left_pct st = NaN \<and> width_pct st = NaN)
     \<and> (ToNumber (elem cs 2) = NaN \<longrightarrow> height_pct st = NaN)
     \<and> (ToNumber (elem cs 3) = NaN \<longrightarrow> width_pct st = NaN)"
  by (simp add: getBoxStyle_def Let_def js_sub_NaN)


lemma overlays_missing_box:
  "d \<in> set ds \<Longrightarrow> box_2d d = None \<Longrightarrow> overlays ds = Inl TypeError"
proof (induction ds)
  case Nil
  then show ?case by simp
next
  case (Cons x xs)
  show ?case
  proof (cases "box_2d x")
    case None
    then show ?thesis by (simp add: getBoxStyle_def)
  next
    case (Some cs)
    obtain st where "getBoxStyle (Some cs) = Inr st"
      using getBoxStyle_Some [of cs] by blast
    with Some Cons show ?thesis by auto
  qed
qed





section \<open>Properties of the selection\<close>

lemma safeIndex_less: "0 < n \<Longrightarrow> safeIndex sel n < n"
  by (simp add: safeIndex_def)

lemma resolve_nonempty:
  "images \<noteq> [] \<Longrightarrow>
     resolve images sel = Some (safeIndex sel (length images), images ! safeIndex sel (length images))"
  by (simp add: resolve_def Let_def safeIndex_less)

lemma resolve_Some: "resolve images sel = Some (i, img) \<Longrightarrow> i < length images \<and> img = images ! i"
  by (auto simp: resolve_def Let_def split: if_splits)

lemma DetectionResult_Shown:
  assumes "DetectionResult items images sel = Inr (Shown i img defs sts)"
  shows "resolve images sel = Some (i, img)"
proof (cases "detectionsByImage items (length images)")
  case (Inl e)
  with assms show ?thesis by (simp add: DetectionResult_def)
next
  case (Inr m)
  show ?thesis
  proof (cases "resolve images sel")
    case None
    with assms Inr show ?thesis by (simp add: DetectionResult_def)
  next
    case (Some p)
    obtain j im where p: "p = (j, im)" by (cases p)
    with assms Inr Some show ?thesis by (simp add: DetectionResult_def Let_def split: sum.splits)
  qed
qed

text \<open>
  C6. With at least one image, the resolution yields an index below the image count,
  together with the image at that index: 0 when the stored index is not below the count,
  the stored index otherwise. With no image it yields nothing and the render pass shows
  nothing. Whatever a render pass shows, it shows for an index that addresses an image.
\<close>

theorem resolve_addresses_existing_image:
  "(images \<noteq> [] \<longrightarrow>
      (\<exists>i. resolve images sel = Some (i, images ! i) \<and> i < length images
           \<and> (sel \<ge> length images \<longrightarrow> i = 0) \<and> (sel < length images \<longrightarrow> i = sel)))
   \<and> (images = [] \<longrightarrow>
        resolve images sel = None \<and> DetectionResult (map Item ds) images sel = Inr Suppressed)
   \<and> (\<forall>i img defs sts. DetectionResult items images sel = Inr (Shown i img defs sts)
        \<longrightarrow> i < length images \<and> img = images ! i)"
proof -
  have a: "images \<noteq> [] \<longrightarrow>
      (\<exists>i. resolve images sel = Some (i, images ! i) \<and> i < length images
           \<and> (sel \<ge> length images \<longrightarrow> i = 0) \<and> (sel < length images \<longrightarrow> i = sel))"
  proof
    assume ne: "images \<noteq> []"
    let ?i = "safeIndex sel (length images)"
    from ne have "resolve images sel = Some (?i, images ! ?i)"
      by (rule resolve_nonempty)
    moreover from ne have "?i < length images"
      by (simp add: safeIndex_less)
    moreover have "sel \<ge> length images \<longrightarrow> ?i = 0" "sel < length images \<longrightarrow> ?i = sel"
      by (simp_all add: safeIndex_def)
    ultimately show "\<exists>i. resolve images sel = Some (i, images ! i) \<and> i < length images
           \<and> (sel \<ge> length images \<longrightarrow> i = 0) \<and> (sel < length images \<longrightarrow> i = sel)"
      by blast
  qed
  have b: "images = [] \<longrightarrow>
        resolve images sel = None \<and> DetectionResult (map Item ds) images sel = Inr Suppressed"
    by (simp add: resolve_def DetectionResult_def detectionsByImage_items)
  have c: "\<forall>i img defs sts. DetectionResult items images sel = Inr (Shown i img defs sts)
        \<longrightarrow> i < length images \<and> img = images ! i"
  proof (intro allI impI)
    fix i img defs sts
    assume "DetectionResult items images sel = Inr (Shown i img defs sts)"
    then have "resolve images sel = Some (i, img)"
      by (rule DetectionResult_Shown)
    then show "i < length images \<and> img = images ! i"
      by (rule resolve_Some)
  qed
  from a b c show ?thesis by (intro conjI)
qed

text \<open>Two images with the stored index 5 and 1, and no image at all.\<close>

theorem resolve_witness:
  "resolve [''first'', ''second''] 5 = Some (0, ''first'')
   \<and> resolve [''first'', ''second''] 1 = Some (1, ''second'')
   \<and> resolve ([] :: string list) 5 = None
   \<and> DetectionResult (map Item [example_detection (VNum (Fin 0)) (box_of 10 10 50 50)])
        ([] :: string list) 5 = Inr Suppressed"
proof -
  note t5 = resolve_addresses_existing_image [where images = "[''first'', ''second'']" and sel = 5]
  note t1 = resolve_addresses_existing_image [where images = "[''first'', ''second'']" and sel = 1]
  note t0 = resolve_addresses_existing_image [where images = "[] :: string list" and sel = 5
      and ds = "[example_detection (VNum (Fin 0)) (box_of 10 10 50 50)]"]
  from t5 obtain i where "resolve [''first'', ''second''] 5 = Some (i, [''first'', ''second''] ! i)"
    "(5::nat) \<ge> length [''first'', ''second''] \<longrightarrow> i = 0"
    by blast
  then have a: "resolve [''first'', ''second''] 5 = Some (0, ''first'')" by simp
  from t1 obtain j where "resolve [''first'', ''second''] 1 = Some (j, [''first'', ''second''] ! j)"
    "(1::nat) < length [''first'', ''second''] \<longrightarrow> j = 1"
    by blast
  then have b: "resolve [''first'', ''second''] 1 = Some (1, ''second'')" by simp
  from t0 have c: "resolve ([] :: string list) 5 = None"
    "DetectionResult (map Item [example_detection (VNum (Fin 0)) (box_of 10 10 50 50)])
        ([] :: string list) 5 = Inr Suppressed"
    by simp_all
  from a b c show ?thesis by (intro conjI)
qed

section \<open>Properties of the history\<close>

lemma js_trim_empty_iff: "js_trim s = [] \<longleftrightarrow> (\<forall>c \<in> set s. is_ws c)"
proof
  assume "js_trim s = []"
  then have "dropWhile is_ws (rev (dropWhile is_ws s)) = []"
    by (simp add: js_trim_def)
  then have "\<forall>c \<in> set (rev (dropWhile is_ws s)). is_ws c"
    by (simp add: dropWhile_eq_Nil_conv)
  then have "dropWhile is_ws s = []"
    by (metis dropWhile_eq_Nil_conv dropWhile_idem set_rev)
  then show "\<forall>c \<in> set s. is_ws c"
    by (simp add: dropWhile_eq_Nil_conv)
next
  assume "\<forall>c \<in> set s. is_ws c"
  then have "dropWhile is_ws s = []"
    by (simp add: dropWhile_eq_Nil_conv)
  then show "js_trim s = []"
    by (simp add: js_trim_def del: dropWhile_eq_Nil_conv)
qed

lemma commit_eq_spec: "commit v h = commit_spec v h"
  by (cases h) (simp_all add: commit_def commit_spec_def MAX_HISTORY_def)

lemma commit_fresh:
  assumes "js_trim v \<noteq> []" "h = [] \<or> hd h \<noteq> v"
  shows "commit v h = take 10 (v # h)"
  using assms by (cases h) (simp_all add: commit_def MAX_HISTORY_def)

lemma commit_twice: "js_trim v \<noteq> [] \<Longrightarrow> commit_all [v, v] [] = [v]"
  by (simp add: commit_all_def commit_def MAX_HISTORY_def)

lemma commit_all_snoc: "commit_all (vs @ [v]) h = commit v (commit_all vs h)"
  by (simp add: commit_all_def)

lemma commit_all_distinct:
  assumes "distinct vs" "\<forall>v \<in> set vs. js_trim v \<noteq> []"
  shows "commit_all vs [] = take 10 (rev vs)"
  using assms
proof (induction vs rule: rev_induct)
  case Nil
  show ?case by (simp add: commit_all_def)
next
  case (snoc v vs)
  then have ih: "commit_all vs [] = take 10 (rev vs)" by simp
  from snoc.prems have v: "js_trim v \<noteq> []" "v \<notin> set vs" by simp_all
  have "take 10 (rev vs) = [] \<or> hd (take 10 (rev vs)) \<noteq> v"
  proof (cases "rev vs")
    case Nil
    then show ?thesis by simp
  next
    case (Cons x xs)
    then have "x \<in> set vs" by (metis list.set_intros(1) set_rev)
    with v(2) Cons show ?thesis by auto
  qed
  with v(1) have "commit v (take 10 (rev vs)) = take 10 (v # take 10 (rev vs))"
    by (rule commit_fresh)
  also have "\<dots> = take 10 (v # rev vs)"
    by (simp add: take_Cons')
  finally show ?case
    by (simp add: commit_all_snoc ih)
qed

text \<open>
  C7. \<^verbatim>\<open>commit\<close> is the operation the specification describes. Committing the same
  non-blank value twice from the empty history leaves one entry. Committing eleven
  distinct non-blank values from the empty history leaves the last ten, newest first.
\<close>

theorem commit_history:
  "commit v h = commit_spec v h
   \<and> (js_trim v \<noteq> [] \<longrightarrow> commit_all [v, v] [] = [v] \<and> length (commit_all [v, v] []) = 1)
   \<and> (distinct vs \<and> (\<forall>x \<in> set vs. js_trim x \<noteq> []) \<and> length vs = 11 \<longrightarrow>
        commit_all vs [] = rev (tl vs) \<and> length (commit_all vs []) = 10)"
proof -
  have c: "distinct vs \<and> (\<forall>x \<in> set vs. js_trim x \<noteq> []) \<and> length vs = 11 \<longrightarrow>
        commit_all vs [] = rev (tl vs) \<and> length (commit_all vs []) = 10"
  proof
    assume h: "distinct vs \<and> (\<forall>x \<in> set vs. js_trim x \<noteq> []) \<and> length vs = 11"
    then have e: "commit_all vs [] = take 10 (rev vs)"
      by (simp add: commit_all_distinct)
    from h obtain x xs where vs: "vs = x # xs" "length xs = 10"
      by (cases vs) simp_all
    then have "take 10 (rev vs) = rev (tl vs)" by simp
    with e vs show "commit_all vs [] = rev (tl vs) \<and> length (commit_all vs []) = 10"
      by simp
  qed
  have b: "js_trim v \<noteq> [] \<longrightarrow> commit_all [v, v] [] = [v] \<and> length (commit_all [v, v] []) = 1"
    by (simp add: commit_twice)
  from commit_eq_spec [of v h] b c show ?thesis by (intro conjI)
qed

text \<open>The value \<^verbatim>\<open>v1\<close> twice, and the eleven values \<^verbatim>\<open>a\<close> to \<^verbatim>\<open>k\<close>.\<close>

theorem commit_history_witness:
  "js_trim ''v1'' \<noteq> []
   \<and> commit_all [''v1'', ''v1''] [] = [''v1'']
   \<and> distinct [''a'', ''b'', ''c'', ''d'', ''e'', ''f'', ''g'', ''h'', ''i'', ''j'', ''k'']
   \<and> commit_all [''a'', ''b'', ''c'', ''d'', ''e'', ''f'', ''g'', ''h'', ''i'', ''j'', ''k''] []
       = [''k'', ''j'', ''i'', ''h'', ''g'', ''f'', ''e'', ''d'', ''c'', ''b'']"
proof -
  let ?vs = "[''a'', ''b'', ''c'', ''d'', ''e'', ''f'', ''g'', ''h'', ''i'', ''j'', ''k'']"
  note t = commit_history [where v = "''v1''" and h = "[]" and vs = ?vs]
  have v: "js_trim ''v1'' \<noteq> []"
    by (simp add: js_trim_def is_ws_def)
  have d: "distinct ?vs" by simp
  have nb: "\<forall>x \<in> set ?vs. js_trim x \<noteq> []"
    by (simp add: js_trim_def is_ws_def)
  have l: "length ?vs = 11" by simp
  from t v have a: "commit_all [''v1'', ''v1''] [] = [''v1'']"
    by blast
  from t d nb l have "commit_all ?vs [] = rev (tl ?vs)"
    by blast
  then have b: "commit_all ?vs [] = [''k'', ''j'', ''i'', ''h'', ''g'', ''f'', ''e'', ''d'', ''c'', ''b'']"
    by simp
  from v a d b show ?thesis by (intro conjI)
qed

text \<open>
  C8. The current value falls back to the default when the entry is absent or the storage
  throws, and the history to the empty one when the entry is absent or empty, the storage
  throws or the text does not parse. A text that parses is returned as parsed, whatever
  the value: nothing checks that it is an array of strings, so the claim fails on the
  code there.
\<close>

theorem useHistory_init_unvalidated:
  "usePersistentString_init Blocked key dflt = dflt
   \<and> usePersistentString_init (Store m) key dflt = (case m key of None \<Rightarrow> dflt | Some x \<Rightarrow> x)
   \<and> useHistory_init JSON_parse Blocked key = JArray []
   \<and> (m (key @ ''_history'') = None \<longrightarrow> useHistory_init JSON_parse (Store m) key = JArray [])
   \<and> (m (key @ ''_history'') = Some saved \<and> (saved = [] \<or> (\<exists>e. JSON_parse saved = Inl e))
        \<longrightarrow> useHistory_init JSON_parse (Store m) key = JArray [])
   \<and> (m (key @ ''_history'') = Some saved \<and> saved \<noteq> [] \<and> JSON_parse saved = Inr v
        \<longrightarrow> useHistory_init JSON_parse (Store m) key = v)"
  by (auto simp: usePersistentString_init_def useHistory_init_def getItem_def split: option.splits)

text \<open>
  The stored text \<^verbatim>\<open>{}\<close> under \<^verbatim>\<open>gemini_analyzer_role_history\<close>: the history is the parsed
  object, which is neither an array of strings nor the empty history.
\<close>

theorem useHistory_init_object:
  "example_JSON_parse ''{}'' = Inr (JObject [])
   \<and> useHistory_init example_JSON_parse
        (Store [''gemini_analyzer_role_history'' \<mapsto> ''{}'']) ''gemini_analyzer_role'' = JObject []
   \<and> \<not> is_string_array (JObject [])
   \<and> JObject [] \<noteq> JArray []"
proof -
  let ?m = "[''gemini_analyzer_role_history'' \<mapsto> ''{}'']"
  note t = useHistory_init_unvalidated [where m = ?m and key = "''gemini_analyzer_role''"
      and saved = "''{}''" and JSON_parse = example_JSON_parse and v = "JObject []"]
  have p: "example_JSON_parse ''{}'' = Inr (JObject [])"
    by (simp add: example_JSON_parse_def)
  have s: "?m (''gemini_analyzer_role'' @ ''_history'') = Some ''{}''" "''{}'' \<noteq> []"
    by simp_all
  from t p s have "useHistory_init example_JSON_parse (Store ?m) ''gemini_analyzer_role'' = JObject []"
    by blast
  with p show ?thesis by simp
qed

text \<open>
  \<^verbatim>\<open>getLatestFromHistory\<close> does check the shape: on the same stored text it answers as for
  an absent history.
\<close>

lemma getLatestFromHistory_object:
  "getLatestFromHistory example_JSON_parse
     (Store [''gemini_analyzer_role_history'' \<mapsto> ''{}'']) ''gemini_analyzer_role'' = JString []"
  by (simp add: getLatestFromHistory_def getItem_def example_JSON_parse_def)

section \<open>Properties of a failed run\<close>

text \<open>The assembled prompt starts with a heading, so it is never blank.\<close>

lemma constructFullPrompt_not_blank: "js_trim (constructFullPrompt s) \<noteq> []"
proof -
  have "CHR ''#'' \<in> set (constructFullPrompt s)"
    by (simp add: constructFullPrompt_def)
  moreover have "\<not> is_ws CHR ''#''"
    by (simp add: is_ws_def)
  ultimately show ?thesis
    unfolding js_trim_empty_iff by blast
qed

text \<open>
  C9, amended. After a run whose model invocation fails, the status is \<^verbatim>\<open>ERROR\<close> and the
  message is surfaced, and the response text and the parsed detections are the empty text
  and \<^verbatim>\<open>null\<close>, whatever they were before: the run cleared them when it started.
\<close>

theorem handleSubmit_failure:
  "status (handleSubmit JSON_parse dbg (Inl message) s) = ERROR
   \<and> errorMsg (handleSubmit JSON_parse dbg (Inl message) s)
       = Some (if message = [] then ''Something went wrong.'' else message)
   \<and> responseText (handleSubmit JSON_parse dbg (Inl message) s) = []
   \<and> parsedDetections (handleSubmit JSON_parse dbg (Inl message) s) = None"
  by (simp add: handleSubmit_def Let_def constructFullPrompt_not_blank)

lemma handleSubmit_array:
  "JSON_parse text = Inr (JArray xs) \<Longrightarrow>
     status (handleSubmit JSON_parse dbg (Inr text) s) = SUCCESS
     \<and> responseText (handleSubmit JSON_parse dbg (Inr text) s) = text
     \<and> parsedDetections (handleSubmit JSON_parse dbg (Inr text) s) = Some xs"
  by (simp add: handleSubmit_def Let_def constructFullPrompt_not_blank show_response_def)

text \<open>
  C9, as stated, fails: a run that succeeds with the text \<^verbatim>\<open>[]\<close> displays that text and an
  empty list of detections, and the failed run after it leaves the empty text and no
  detections.
\<close>

theorem prior_results_cleared_counterexample:
  "status (handleSubmit example_JSON_parse ''{}'' (Inr ''[]'') initial_state) = SUCCESS
   \<and> responseText (handleSubmit example_JSON_parse ''{}'' (Inr ''[]'') initial_state) = ''[]''
   \<and> parsedDetections (handleSubmit example_JSON_parse ''{}'' (Inr ''[]'') initial_state) = Some []
   \<and> responseText (handleSubmit example_JSON_parse ''{}'' (Inl ''Failed to generate content'')
        (handleSubmit example_JSON_parse ''{}'' (Inr ''[]'') initial_state)) = ''''
   \<and> parsedDetections (handleSubmit example_JSON_parse ''{}'' (Inl ''Failed to generate content'')
        (handleSubmit example_JSON_parse ''{}'' (Inr ''[]'') initial_state)) = None"
proof -
  have "example_JSON_parse ''[]'' = Inr (JArray [])"
    by (simp add: example_JSON_parse_def)
  then have "status (handleSubmit example_JSON_parse ''{}'' (Inr ''[]'') initial_state) = SUCCESS
     \<and> responseText (handleSubmit example_JSON_parse ''{}'' (Inr ''[]'') initial_state) = ''[]''
     \<and> parsedDetections (handleSubmit example_JSON_parse ''{}'' (Inr ''[]'') initial_state) = Some []"
    by (rule handleSubmit_array)
  moreover have "responseText (handleSubmit example_JSON_parse ''{}'' (Inl ''Failed to generate content'')
        (handleSubmit example_JSON_parse ''{}'' (Inr ''[]'') initial_state)) = ''''
     \<and> parsedDetections (handleSubmit example_JSON_parse ''{}'' (Inl ''Failed to generate content'')
        (handleSubmit example_JSON_parse ''{}'' (Inr ''[]'') initial_state)) = None"
    by (simp add: handleSubmit_def [of _ _ "Inl _"] Let_def constructFullPrompt_not_blank)
  ultimately show ?thesis by (intro conjI) simp_all
qed

end
